theory Spec2Isabelle
  imports Main "HOL-Library.AList"
begin

section \<open>Python text\<close>

text \<open>
  A Python \<open>str\<close> is a sequence of Unicode code points. The checker's marker phrases and
  labels are Japanese, so text is modelled as a list of code points (natural numbers);
  \<open>asc\<close> embeds an ASCII literal.
\<close>

type_synonym pystr = "nat list"

definition asc :: "string \<Rightarrow> pystr" where
  "asc s = map of_char s"

text \<open>
  \<open>s.find(sub, start)\<close> for a non-negative \<open>start\<close>: the lowest index \<open>\<ge> start\<close> at which
  \<open>sub\<close> occurs, or \<open>-1\<close>. \<open>sub in s\<close> is the same search from index 0.
\<close>

definition starts :: "pystr \<Rightarrow> pystr \<Rightarrow> bool" where
  "starts p s = (take (length p) s = p)"

fun find_aux :: "pystr \<Rightarrow> pystr \<Rightarrow> nat \<Rightarrow> int" where
  "find_aux sub [] k = (if sub = [] then int k else - 1)"
| "find_aux sub (c # cs) k = (if starts sub (c # cs) then int k else find_aux sub cs (Suc k))"

definition str_find :: "pystr \<Rightarrow> pystr \<Rightarrow> nat \<Rightarrow> int" where
  "str_find s sub start = (if start \<le> length s then find_aux sub (drop start s) start else - 1)"

definition contains :: "pystr \<Rightarrow> pystr \<Rightarrow> bool" where
  "contains sub s = (str_find s sub 0 \<noteq> - 1)"

text \<open>
  The slice \<open>s[a:b]\<close>: a negative bound counts from the end, and both bounds are clamped
  to the text.
\<close>

definition slice_index :: "nat \<Rightarrow> int \<Rightarrow> nat" where
  "slice_index n i = (if i < 0 then nat (max 0 (i + int n)) else min (nat i) n)"

definition py_slice :: "pystr \<Rightarrow> int \<Rightarrow> int \<Rightarrow> pystr" where
  "py_slice s a b =
     (let lo = slice_index (length s) a; hi = slice_index (length s) b
      in take (hi - lo) (drop lo s))"

text \<open>\<open>str.isspace\<close> on one code point, and \<open>str.strip()\<close> without arguments.\<close>

definition isspace :: "nat \<Rightarrow> bool" where
  "isspace c =
     ((9 \<le> c \<and> c \<le> 13) \<or> (28 \<le> c \<and> c \<le> 32) \<or> c = 133 \<or> c = 160 \<or> c = 5760
      \<or> (8192 \<le> c \<and> c \<le> 8202) \<or> c = 8232 \<or> c = 8233 \<or> c = 8239 \<or> c = 8287
      \<or> c = 12288)"

definition strip :: "pystr \<Rightarrow> pystr" where
  "strip s = rev (dropWhile isspace (rev (dropWhile isspace s)))"

text \<open>\<open>str(n)\<close> for an integer: decimal digits, with a minus sign when negative.\<close>

fun digits_of :: "nat \<Rightarrow> pystr" where
  "digits_of n = (if n < 10 then [48 + n] else digits_of (n div 10) @ [48 + n mod 10])"

declare digits_of.simps [simp del]

definition str_of_int :: "int \<Rightarrow> pystr" where
  "str_of_int i = (if i < 0 then 45 # digits_of (nat (- i)) else digits_of (nat i))"

text \<open>\<open>str.lower\<close> on ASCII letters; other code points are left as they are.\<close>

definition lower_char :: "nat \<Rightarrow> nat" where
  "lower_char c = (if 65 \<le> c \<and> c \<le> 90 then c + 32 else c)"

definition lower :: "pystr \<Rightarrow> pystr" where
  "lower s = map lower_char s"

section \<open>JSON values and the library decoder\<close>

text \<open>
  The values \<open>json.loads\<close> produces: \<open>None\<close>, booleans, integers, floats, strings, lists and
  dictionaries. A float is kept as the numeral text it was read from. A dictionary is an
  association list in insertion order with distinct keys; \<open>dict_set\<close> is \<open>d[k] = v\<close>
  (overwrite in place, or append a new key).
\<close>

datatype json =
    JNull
  | JBool bool
  | JInt int
  | JFloat pystr
  | JString pystr
  | JArray "json list"
  | JObject "(pystr \<times> json) list"

definition dict_set :: "pystr \<Rightarrow> 'v \<Rightarrow> (pystr \<times> 'v) list \<Rightarrow> (pystr \<times> 'v) list" where
  "dict_set k v d = AList.update k v d"

definition dict_of_pairs :: "(pystr \<times> 'v) list \<Rightarrow> (pystr \<times> 'v) list" where
  "dict_of_pairs ps = foldl (\<lambda>d (k, v). dict_set k v d) [] ps"

definition dict_get :: "(pystr \<times> 'v) list \<Rightarrow> pystr \<Rightarrow> 'v option" where
  "dict_get d k = map_of d k"

text \<open>
  The decoder follows the scanner of the \<open>json\<close> module on the remaining input: a value is
  a string, an object, an array, one of the literals \<open>null true false NaN Infinity
  -Infinity\<close>, or a number \<open>-?(0|[1-9][0-9]*)(.[0-9]+)?([eE][-+]?[0-9]+)?\<close>. Whitespace is
  space, tab, line feed and carriage return. Every \<open>JSONDecodeError\<close> is the value \<open>None\<close>.
  The interpreter's recursion limit and its limit on the digits of an integer literal are
  outside this model.
\<close>

definition is_json_ws :: "nat \<Rightarrow> bool" where
  "is_json_ws c = (c = 32 \<or> c = 9 \<or> c = 10 \<or> c = 13)"

definition skip_ws :: "pystr \<Rightarrow> pystr" where
  "skip_ws s = dropWhile is_json_ws s"

definition is_digit :: "nat \<Rightarrow> bool" where
  "is_digit c = (48 \<le> c \<and> c \<le> 57)"

definition hex_digit :: "nat \<Rightarrow> nat option" where
  "hex_digit c =
     (if 48 \<le> c \<and> c \<le> 57 then Some (c - 48)
      else if 97 \<le> c \<and> c \<le> 102 then Some (c - 87)
      else if 65 \<le> c \<and> c \<le> 70 then Some (c - 55)
      else None)"

definition hex4 :: "nat \<Rightarrow> nat \<Rightarrow> nat \<Rightarrow> nat \<Rightarrow> nat option" where
  "hex4 a b c d =
     (case (hex_digit a, hex_digit b, hex_digit c, hex_digit d) of
        (Some w, Some x, Some y, Some z) \<Rightarrow> Some (((w * 16 + x) * 16 + y) * 16 + z)
      | _ \<Rightarrow> None)"

definition unescape :: "nat \<Rightarrow> nat option" where
  "unescape e =
     (if e = 34 then Some 34
      else if e = 92 then Some 92
      else if e = 47 then Some 47
      else if e = 98 then Some 8
      else if e = 102 then Some 12
      else if e = 110 then Some 10
      else if e = 114 then Some 13
      else if e = 116 then Some 9
      else None)"

definition low_surrogate_after :: "pystr \<Rightarrow> nat option" where
  "low_surrogate_after s =
     (case s of
        b # u # w # x # y # z # _ \<Rightarrow>
          if b = 92 \<and> u = 117 then
            (case hex4 w x y z of
               Some lo \<Rightarrow> if 56320 \<le> lo \<and> lo \<le> 57343 then Some lo else None
             | None \<Rightarrow> None)
          else None
      | _ \<Rightarrow> None)"

definition push :: "'a \<Rightarrow> ('a list \<times> 'b) option \<Rightarrow> ('a list \<times> 'b) option" where
  "push x r = map_option (\<lambda>(xs, rest). (x # xs, rest)) r"

fun scanstring :: "pystr \<Rightarrow> (pystr \<times> pystr) option" where
  "scanstring [] = None"
| "scanstring (c # cs) =
     (if c = 34 then Some ([], cs)
      else if c = 92 then
        (case cs of
           [] \<Rightarrow> None
         | e # es \<Rightarrow>
             if e = 117 then
               (case es of
                  w # x # y # z # rest \<Rightarrow>
                    (case hex4 w x y z of
                       None \<Rightarrow> None
                     | Some hi \<Rightarrow>
                         if 55296 \<le> hi \<and> hi \<le> 56319 then
                           (case low_surrogate_after rest of
                              Some lo \<Rightarrow>
                                push (65536 + ((hi - 55296) * 1024 + (lo - 56320)))
                                  (scanstring (drop 6 rest))
                            | None \<Rightarrow> push hi (scanstring rest))
                         else push hi (scanstring rest))
                | _ \<Rightarrow> None)
             else
               (case unescape e of
                  None \<Rightarrow> None
                | Some ch \<Rightarrow> push ch (scanstring es)))
      else if c \<le> 31 then None
      else push c (scanstring cs))"

definition digits_val :: "pystr \<Rightarrow> nat" where
  "digits_val ds = foldl (\<lambda>a d. a * 10 + (d - 48)) 0 ds"

definition frac_part :: "pystr \<Rightarrow> pystr" where
  "frac_part s =
     (case s of
        p # f # _ \<Rightarrow> if p = 46 \<and> is_digit f then p # takeWhile is_digit (tl s) else []
      | _ \<Rightarrow> [])"

definition exp_part :: "pystr \<Rightarrow> pystr" where
  "exp_part s =
     (case s of
        [] \<Rightarrow> []
      | e # r \<Rightarrow>
          if e = 101 \<or> e = 69 then
            (let sg = (case r of [] \<Rightarrow> [] | g # _ \<Rightarrow> if g = 43 \<or> g = 45 then [g] else []);
                 ds = takeWhile is_digit (drop (length sg) r)
             in if ds = [] then [] else e # sg @ ds)
          else [])"

definition match_number :: "pystr \<Rightarrow> (json \<times> pystr) option" where
  "match_number s =
     (let neg = (case s of [] \<Rightarrow> False | c # _ \<Rightarrow> c = 45);
          s1 = (if neg then tl s else s)
      in case s1 of
           [] \<Rightarrow> None
         | d # r \<Rightarrow>
             if \<not> is_digit d then None
             else
               let ip = (if d = 48 then [d] else d # takeWhile is_digit r);
                   r1 = drop (length ip) s1;
                   fp = frac_part r1;
                   r2 = drop (length fp) r1;
                   ep = exp_part r2;
                   r3 = drop (length ep) r2
               in if fp = [] \<and> ep = []
                  then Some (JInt ((if neg then - 1 else 1) * int (digits_val ip)), r3)
                  else Some (JFloat ((if neg then [45] else []) @ ip @ fp @ ep), r3))"

function scan_once :: "pystr \<Rightarrow> (json \<times> pystr) option"
  and parse_array :: "pystr \<Rightarrow> (json list \<times> pystr) option"
  and parse_object :: "pystr \<Rightarrow> ((pystr \<times> json) list \<times> pystr) option"
where
  "scan_once [] = None"
| "scan_once (c # cs) =
     (if c = 34 then map_option (\<lambda>(s, r). (JString s, r)) (scanstring cs)
      else if c = 123 then
        (case skip_ws cs of
           [] \<Rightarrow> None
         | d # ds \<Rightarrow>
             if d = 125 then Some (JObject [], ds)
             else map_option (\<lambda>(ps, r). (JObject (dict_of_pairs ps), r)) (parse_object (d # ds)))
      else if c = 91 then
        (case skip_ws cs of
           [] \<Rightarrow> None
         | d # ds \<Rightarrow>
             if d = 93 then Some (JArray [], ds)
             else map_option (\<lambda>(vs, r). (JArray vs, r)) (parse_array (d # ds)))
      else if c = 110 \<and> starts (asc ''ull'') cs then Some (JNull, drop 3 cs)
      else if c = 116 \<and> starts (asc ''rue'') cs then Some (JBool True, drop 3 cs)
      else if c = 102 \<and> starts (asc ''alse'') cs then Some (JBool False, drop 4 cs)
      else if c = 78 \<and> starts (asc ''aN'') cs then Some (JFloat (asc ''NaN''), drop 2 cs)
      else if c = 73 \<and> starts (asc ''nfinity'') cs then Some (JFloat (asc ''Infinity''), drop 7 cs)
      else if c = 45 \<and> starts (asc ''Infinity'') cs then Some (JFloat (asc ''-Infinity''), drop 8 cs)
      else match_number (c # cs))"
| "parse_array s =
     (case scan_once s of
        None \<Rightarrow> None
      | Some (v, r) \<Rightarrow>
          (case skip_ws r of
             [] \<Rightarrow> None
           | t # r' \<Rightarrow>
               if t = 93 then Some ([v], r')
               else if t = 44 then push v (parse_array (skip_ws r'))
               else None))"
| "parse_object [] = None"
| "parse_object (q # s) =
     (if q \<noteq> 34 then None
      else
        case scanstring s of
          None \<Rightarrow> None
        | Some (key, r1) \<Rightarrow>
            (case skip_ws r1 of
               [] \<Rightarrow> None
             | col # r2 \<Rightarrow>
                 if col \<noteq> 58 then None
                 else
                   (case scan_once (skip_ws r2) of
                      None \<Rightarrow> None
                    | Some (v, r3) \<Rightarrow>
                        (case skip_ws r3 of
                           [] \<Rightarrow> None
                         | t # r4 \<Rightarrow>
                             if t = 125 then Some ([(key, v)], r4)
                             else if t = 44 then push (key, v) (parse_object (skip_ws r4))
                             else None))))"
  by pat_completeness auto



definition json_loads :: "pystr \<Rightarrow> json option" where
  "json_loads s =
     (case scan_once (skip_ws s) of
        None \<Rightarrow> None
      | Some (v, r) \<Rightarrow> if skip_ws r = [] then Some v else None)"

section \<open>Exceptions\<close>

text \<open>
  The exceptions that reach a handler of the program, each with the text \<open>str(e)\<close> gives:
  \<open>TypeError\<close> (item assignment on a value that is not a dictionary), \<open>ValueError\<close> and
  \<open>RuntimeError\<close> (raised by the file processor), and \<open>Raised\<close> for any other \<open>Exception\<close> a
  collaborator raises.
\<close>

datatype pyexn = TypeError pystr | ValueError pystr | RuntimeError pystr | Raised pystr

fun exn_str :: "pyexn \<Rightarrow> pystr" where
  "exn_str (TypeError m) = m"
| "exn_str (ValueError m) = m"
| "exn_str (RuntimeError m) = m"
| "exn_str (Raised m) = m"

definition no_item_assignment :: "pystr \<Rightarrow> pystr" where
  "no_item_assignment ty = [39] @ ty @ [39] @ asc '' object does not support item assignment''"

text \<open>\<open>result[k] = v\<close> with a string key \<open>k\<close>, on whatever value \<open>result\<close> is.\<close>

fun setitem :: "json \<Rightarrow> pystr \<Rightarrow> json \<Rightarrow> pyexn + json" where
  "setitem (JObject d) k v = Inr (JObject (dict_set k v d))"
| "setitem (JArray xs) k v =
     Inl (TypeError (asc ''list indices must be integers or slices, not str''))"
| "setitem JNull k v = Inl (TypeError (no_item_assignment (asc ''NoneType'')))"
| "setitem (JBool b) k v = Inl (TypeError (no_item_assignment (asc ''bool'')))"
| "setitem (JInt i) k v = Inl (TypeError (no_item_assignment (asc ''int'')))"
| "setitem (JFloat f) k v = Inl (TypeError (no_item_assignment (asc ''float'')))"
| "setitem (JString s) k v = Inl (TypeError (no_item_assignment (asc ''str'')))"

section \<open>The checker (core/openai\_checker.py)\<close>

subsection \<open>String literals of the source\<close>

text \<open>The judgment label and marker phrase "no problem" (U+554F U+984C U+306A U+3057).\<close>

definition label_no_problem :: pystr where
  "label_no_problem =
     [21839, 38988, 12394, 12375]"

text \<open>The judgment label and marker phrase "has problem".\<close>

definition label_has_problem :: pystr where
  "label_has_problem =
     [21839, 38988, 12354, 12426]"

text \<open>The judgment label "needs review".\<close>

definition label_needs_review :: pystr where
  "label_needs_review =
     [35201, 30906, 35469]"

text \<open>The judgment label "error".\<close>

definition label_error :: pystr where
  "label_error =
     [12456, 12521, 12540]"

text \<open>The marker phrase "prohibited".\<close>

definition marker_prohibited :: pystr where
  "marker_prohibited =
     [31105, 27490]"

text \<open>The marker phrase "failed".\<close>

definition marker_failed :: pystr where
  "marker_failed =
     [19981, 21512, 26684]"

text \<open>The company name "unknown".\<close>

definition label_unknown :: pystr where
  "label_unknown =
     [19981, 26126]"

text \<open>The issue category "parse error".\<close>

definition category_parse_error :: pystr where
  "category_parse_error =
     [12497, 12540, 12473, 12456, 12521, 12540]"

text \<open>The issue category "system error".\<close>

definition category_system_error :: pystr where
  "category_system_error =
     [12471, 12473, 12486, 12512, 12456, 12521, 12540]"

text \<open>The description of the parse-error issue: decoding as JSON failed, see the raw text below.\<close>

definition fallback_description :: pystr where
  "fallback_description =
     [74, 83, 79, 78, 24418, 24335, 12391, 12398, 35299, 26512, 12395, 22833, 25943, 12375,
      12414, 12375, 12383, 12290, 20197, 19979, 12398, 29983, 12486, 12461, 12473, 12488,
      12434, 30906, 35469, 12375, 12390, 12367, 12384, 12373, 12356, 12290]"

text \<open>The head of the system-error description, "API call error: ".\<close>

definition api_error_prefix :: pystr where
  "api_error_prefix =
     [65, 80, 73, 21628, 12403, 20986, 12375, 12456, 12521, 12540, 58, 32]"

text \<open>The note of an error record: an API error occurred, please retry.\<close>

definition api_error_notes :: pystr where
  "api_error_notes =
     [65, 80, 73, 12456, 12521, 12540, 12364, 30330, 29983, 12375, 12414, 12375, 12383,
      12290, 20877, 35430, 34892, 12375, 12390, 12367, 12384, 12373, 12356, 12290]"

text \<open>The head of the page suffix, " (page " with the word in katakana.\<close>

definition page_prefix :: pystr where
  "page_prefix =
     [32, 40, 12506, 12540, 12472, 32]"

text \<open>The user instruction up to the display name.\<close>

definition user_text_head :: pystr where
  "user_text_head =
     [12371, 12398, 12463, 12522, 12456, 12452, 12486, 12451, 12502, 30011, 20687, 12434,
      20998, 26512, 12375, 12390, 12367, 12384, 12373, 12356, 12290, 12501, 12449, 12452,
      12523, 21517, 58, 32]"

text \<open>The user instruction after the display name.\<close>

definition user_text_tail :: pystr where
  "user_text_tail =
     [10, 10, 24517, 12378, 74, 83, 79, 78, 24418, 24335, 12391, 32080, 26524, 12434,
      20986, 21147, 12375, 12390, 12367, 12384, 12373, 12356, 12290]"

definition fence_json :: pystr where
  "fence_json = asc ''```json''"

definition fence :: pystr where
  "fence = asc ''```''"

subsection \<open>\<open>_parse_response\<close> and \<open>_create_fallback_result\<close>\<close>

text \<open>
  The text handed to the decoder: the inside of the first fenced block tagged \<open>json\<close>, else
  of the first fenced block, else the whole reply; stripped in each case. A closing fence
  that is not found leaves \<open>json_end = -1\<close>, which the slice takes as its end.
\<close>

definition json_str :: "pystr \<Rightarrow> pystr" where
  "json_str content =
     (if contains fence_json content then
        (let json_start = str_find content fence_json 0 + 7;
             json_end = str_find content fence (nat json_start)
         in strip (py_slice content json_start json_end))
      else if contains fence content then
        (let json_start = str_find content fence 0 + 3;
             json_end = str_find content fence (nat json_start)
         in strip (py_slice content json_start json_end))
      else strip content)"

definition create_fallback_result :: "pystr \<Rightarrow> pystr \<Rightarrow> json" where
  "create_fallback_result content file_name =
     (let judgment =
            (if contains label_no_problem content then label_no_problem
             else if contains label_has_problem content \<or> contains marker_prohibited content
                     \<or> contains marker_failed content
             then label_has_problem
             else label_needs_review)
      in JObject
           [(asc ''file_name'', JString file_name),
            (asc ''company_name'', JString label_unknown),
            (asc ''judgment'', JString judgment),
            (asc ''issues'',
               JArray
                 [JObject
                    [(asc ''severity'', JString (asc ''info'')),
                     (asc ''category'', JString category_parse_error),
                     (asc ''description'', JString fallback_description)]]),
            (asc ''detected_elements'',
               JObject
                 [(asc ''year'', JNull),
                  (asc ''issuer'', JNull),
                  (asc ''ranking_name'', JNull),
                  (asc ''position'', JNull),
                  (asc ''trademark_symbol'', JBool False)]),
            (asc ''notes'', JString content),
            (asc ''raw_response'', JString content)])"

text \<open>
  Only \<open>json.JSONDecodeError\<close> is handled; an exception of the item assignment leaves the
  function (\<open>Inl\<close>).
\<close>

definition parse_response :: "pystr \<Rightarrow> pystr \<Rightarrow> pyexn + json" where
  "parse_response content file_name =
     (case json_loads (json_str content) of
        None \<Rightarrow> Inr (create_fallback_result content file_name)
      | Some result \<Rightarrow> setitem result (asc ''file_name'') (JString file_name))"

subsection \<open>\<open>check_image\<close> and \<open>check_multiple_images\<close>\<close>

text \<open>
  The remote call \<open>client.chat.completions.create\<close> is a collaborator: it takes the request
  and its own state, and either raises or replies with a text. The state stands for
  everything outside the program that decides the reply.
\<close>

record request =
  req_model :: pystr
  req_system :: pystr
  req_user_text :: pystr
  req_image_url :: pystr
  req_image_detail :: pystr
  req_max_tokens :: nat
  req_temperature :: pystr

type_synonym 'st remote = "'st \<Rightarrow> request \<Rightarrow> (pyexn + pystr) \<times> 'st"

definition display_name_of :: "pystr \<Rightarrow> int option \<Rightarrow> pystr" where
  "display_name_of file_name page_num =
     (case page_num of
        Some p \<Rightarrow> file_name @ page_prefix @ str_of_int (p + 1) @ asc '')''
      | None \<Rightarrow> file_name)"

definition build_request :: "pystr \<Rightarrow> pystr \<Rightarrow> pystr \<Rightarrow> pystr \<Rightarrow> request" where
  "build_request prompt display_name media_type base64_image =
     \<lparr> req_model = asc ''gpt-4o'',
       req_system = prompt,
       req_user_text = user_text_head @ display_name @ user_text_tail,
       req_image_url = asc ''data:'' @ media_type @ asc '';base64,'' @ base64_image,
       req_image_detail = asc ''high'',
       req_max_tokens = 2000,
       req_temperature = asc ''0.1'' \<rparr>"

text \<open>The dictionary built by the \<open>except Exception\<close> handler of \<open>check_image\<close>.\<close>

definition error_result :: "pystr \<Rightarrow> pyexn \<Rightarrow> json" where
  "error_result display_name e =
     JObject
       [(asc ''file_name'', JString display_name),
        (asc ''company_name'', JString label_unknown),
        (asc ''judgment'', JString label_error),
        (asc ''issues'',
           JArray
             [JObject
                [(asc ''severity'', JString (asc ''critical'')),
                 (asc ''category'', JString category_system_error),
                 (asc ''description'', JString (api_error_prefix @ exn_str e))]]),
        (asc ''detected_elements'',
           JObject
             [(asc ''year'', JNull),
              (asc ''issuer'', JNull),
              (asc ''ranking_name'', JNull),
              (asc ''position'', JNull),
              (asc ''trademark_symbol'', JBool False)]),
        (asc ''notes'', JString api_error_notes)]"

text \<open>
  What the \<open>try\<close> block does with the outcome of the remote call: a reply goes to the
  parser, and an exception of the call or of the parser goes to the handler.
\<close>

definition handle_reply :: "pystr \<Rightarrow> pyexn + pystr \<Rightarrow> json" where
  "handle_reply display_name reply =
     (case reply of
        Inl e \<Rightarrow> error_result display_name e
      | Inr content \<Rightarrow>
          (case parse_response content display_name of
             Inl e \<Rightarrow> error_result display_name e
           | Inr result \<Rightarrow> result))"

definition check_image ::
  "'st remote \<Rightarrow> pystr \<Rightarrow> 'st \<Rightarrow> pystr \<Rightarrow> pystr \<Rightarrow> pystr \<Rightarrow> int option \<Rightarrow> json \<times> 'st" where
  "check_image create prompt st base64_image media_type file_name page_num =
     (let display_name = display_name_of file_name page_num;
          (reply, st') = create st (build_request prompt display_name media_type base64_image)
      in (handle_reply display_name reply, st'))"

text \<open>The loop of \<open>check_multiple_images\<close> from index \<open>i\<close>; \<open>n\<close> is \<open>len(images)\<close>.\<close>

fun check_images_from ::
  "'st remote \<Rightarrow> pystr \<Rightarrow> pystr \<Rightarrow> nat \<Rightarrow> 'st \<Rightarrow> nat \<Rightarrow> (pystr \<times> pystr) list
     \<Rightarrow> json list \<times> 'st" where
  "check_images_from create prompt file_name n st i [] = ([], st)"
| "check_images_from create prompt file_name n st i ((base64_image, media_type) # rest) =
     (let (result, st1) =
            check_image create prompt st base64_image media_type file_name
              (if 1 < n then Some (int i) else None);
          (results, st2) = check_images_from create prompt file_name n st1 (Suc i) rest
      in (result # results, st2))"

definition check_multiple_images ::
  "'st remote \<Rightarrow> pystr \<Rightarrow> 'st \<Rightarrow> (pystr \<times> pystr) list \<Rightarrow> pystr \<Rightarrow> json list \<times> 'st" where
  "check_multiple_images create prompt st images file_name =
     check_images_from create prompt file_name (length images) st 0 images"

section \<open>The file processor (core/file\_processor.py)\<close>

text \<open>
  \<open>Path(p).name\<close> and \<open>Path(p).suffix\<close> of \<open>pathlib\<close> for a POSIX path: the name is the last
  component that is neither empty nor a single dot, and the suffix starts at the last dot
  of the name unless that dot is its first or its last character.
\<close>

fun split_on :: "nat \<Rightarrow> pystr \<Rightarrow> pystr list" where
  "split_on sep [] = [[]]"
| "split_on sep (c # cs) =
     (if c = sep then [] # split_on sep cs
      else (case split_on sep cs of [] \<Rightarrow> [[c]] | p # ps \<Rightarrow> (c # p) # ps))"

definition path_name :: "pystr \<Rightarrow> pystr" where
  "path_name p =
     (case filter (\<lambda>c. c \<noteq> [] \<and> c \<noteq> [46]) (split_on 47 p) of
        [] \<Rightarrow> []
      | c # cs \<Rightarrow> last (c # cs))"

fun rfind_char :: "nat \<Rightarrow> pystr \<Rightarrow> int" where
  "rfind_char c [] = - 1"
| "rfind_char c (x # xs) =
     (let r = rfind_char c xs in if r \<noteq> - 1 then r + 1 else if x = c then 0 else - 1)"

definition path_suffix :: "pystr \<Rightarrow> pystr" where
  "path_suffix p =
     (let name = path_name p; i = rfind_char 46 name
      in if 0 < i \<and> i < int (length name) - 1 then drop (nat i) name else [])"

definition supported_image_extensions :: "pystr list" where
  "supported_image_extensions =
     [asc ''.png'', asc ''.jpg'', asc ''.jpeg'', asc ''.gif'', asc ''.webp'', asc ''.bmp'']"

definition supported_doc_extensions :: "pystr list" where
  "supported_doc_extensions = [asc ''.pdf'']"

definition media_type_map :: "(pystr \<times> pystr) list" where
  "media_type_map =
     [(asc ''.png'', asc ''image/png''),
      (asc ''.jpg'', asc ''image/jpeg''),
      (asc ''.jpeg'', asc ''image/jpeg''),
      (asc ''.gif'', asc ''image/gif''),
      (asc ''.webp'', asc ''image/webp''),
      (asc ''.bmp'', asc ''image/bmp'')]"

text \<open>
  The libraries the processor calls: whether PyMuPDF was imported, opening a document
  (which gives its pages or raises), rendering a page to PNG bytes, and Base64 encoding.
\<close>

record ('b, 'p) runtime =
  pymupdf_available :: bool
  fitz_open :: "'b \<Rightarrow> pyexn + 'p list"
  page_png :: "'p \<Rightarrow> 'b"
  b64encode :: "'b \<Rightarrow> pystr"

record 'b uploaded_file =
  up_name :: pystr
  up_bytes :: 'b

definition process_image_bytes :: "('b, 'p) runtime \<Rightarrow> 'b \<Rightarrow> pystr \<Rightarrow> (pystr \<times> pystr) list" where
  "process_image_bytes rt image_bytes ext =
     (let media_type = (case map_of media_type_map ext of Some m \<Rightarrow> m | None \<Rightarrow> asc ''image/png'');
          base64_image = b64encode rt image_bytes
      in [(base64_image, media_type)])"

definition process_pdf_bytes :: "('b, 'p) runtime \<Rightarrow> 'b \<Rightarrow> pyexn + (pystr \<times> pystr) list" where
  "process_pdf_bytes rt pdf_bytes =
     (if \<not> pymupdf_available rt then
        Inl (RuntimeError (asc ''PyMuPDF is not installed. Cannot process PDF files.''))
      else
        (case fitz_open rt pdf_bytes of
           Inl e \<Rightarrow> Inl e
         | Inr doc \<Rightarrow> Inr (map (\<lambda>page. (b64encode rt (page_png rt page), asc ''image/png'')) doc)))"

definition process_uploaded_file ::
  "('b, 'p) runtime \<Rightarrow> 'b uploaded_file \<Rightarrow> pyexn + (pystr \<times> pystr) list" where
  "process_uploaded_file rt uploaded =
     (let file_name = up_name uploaded;
          file_bytes = up_bytes uploaded;
          ext = lower (path_suffix file_name)
      in if ext \<in> set supported_image_extensions then
           Inr (process_image_bytes rt file_bytes ext)
         else if ext \<in> set supported_doc_extensions then process_pdf_bytes rt file_bytes
         else Inl (ValueError (asc ''Unsupported file type: '' @ file_name)))"

section \<open>Reading a record, and example inputs\<close>

text \<open>
  \<open>record.get(k)\<close>, as the page that shows the records reads them. Every record the checker
  returns is a dictionary.
\<close>

fun py_get :: "json \<Rightarrow> pystr \<Rightarrow> json option" where
  "py_get (JObject d) k = dict_get d k"
| "py_get v k = None"

text \<open>A reply in prose that holds both the "no problem" and the "has problem" phrase.\<close>

definition reply_both_markers :: pystr where
  "reply_both_markers =
     asc ''verdict: '' @ label_no_problem @ asc '' (not '' @ label_has_problem @ asc '')''"

text \<open>
  A reply with a fenced block tagged \<open>json\<close> that holds a record with every field, except
  that \<open>detected_elements\<close> lacks \<open>trademark_symbol\<close>.
\<close>

definition reply_no_trademark :: pystr where
  \<open>reply_no_trademark =
     asc ''```json'' @ [10]
     @ asc ''{"file_name": "x.png", "company_name": "ACME", "judgment": "''
     @ label_no_problem
     @ asc ''", "issues": [], "detected_elements": {"year": "2024", "issuer": null, ''
     @ asc ''"ranking_name": null, "position": null}, "notes": ""}'' @ [10]
     @ asc ''```''\<close>

text \<open>A reply that is a JSON object with a \<open>raw_response\<close> key of its own.\<close>

definition reply_with_raw :: pystr where
  \<open>reply_with_raw = asc ''{"judgment": "'' @ label_no_problem @ asc ''", "raw_response": "x"}''\<close>

text \<open>A reply that is a JSON object whose judgment is none of the four labels.\<close>

definition reply_odd_judgment :: pystr where
  \<open>reply_odd_judgment = asc ''{"judgment": "OK"}''\<close>

text \<open>A reply whose fenced block tagged \<open>json\<close> is never closed.\<close>

definition reply_unclosed_fence :: pystr where
  \<open>reply_unclosed_fence = asc ''```json'' @ [10] @ asc ''{"judgment": "OK"}''\<close>

text \<open>A reply with an untagged fenced block that is never closed.\<close>

definition reply_unclosed_plain :: pystr where
  \<open>reply_unclosed_plain = asc ''see ```{"judgment": "OK"} ''\<close>

section \<open>The calls the checker makes\<close>

text \<open>
  The replies the collaborator gives during the loop of \<open>check_multiple_images\<close>, and the
  state it is left in: one call per payload, in payload order, each with the request
  \<open>check_image\<close> builds for that payload.
\<close>

fun remote_trace ::
  "'st remote \<Rightarrow> pystr \<Rightarrow> pystr \<Rightarrow> nat \<Rightarrow> 'st \<Rightarrow> nat \<Rightarrow> (pystr \<times> pystr) list
     \<Rightarrow> (pyexn + pystr) list \<times> 'st" where
  "remote_trace create prompt file_name n st i [] = ([], st)"
| "remote_trace create prompt file_name n st i ((base64_image, media_type) # rest) =
     (let display_name = display_name_of file_name (if 1 < n then Some (int i) else None);
          (reply, st1) = create st (build_request prompt display_name media_type base64_image);
          (replies, st2) = remote_trace create prompt file_name n st1 (Suc i) rest
      in (reply # replies, st2))"

text \<open>
  A collaborator for examples: its state counts the calls; the second call raises, every
  other call replies with prose that has the "no problem" phrase.
\<close>

definition second_call_fails :: "nat remote" where
  "second_call_fails st req =
     (if st = 1 then (Inl (Raised (asc ''timeout'')), Suc st)
      else (Inr reply_both_markers, Suc st))"

definition three_pages :: "(pystr \<times> pystr) list" where
  "three_pages =
     [(asc ''QUFB'', asc ''image/png''), (asc ''QkJC'', asc ''image/png''),
      (asc ''Q0ND'', asc ''image/png'')]"

section \<open>The decoder terminates\<close>

text \<open>
  Every successful scan consumes at least one character, so the nested calls of the
  scanner are on shorter input.
\<close>

lemma scanstring_shorter:
  "scanstring s = Some (k, r) \<Longrightarrow> length r < length s"
proof (induction s arbitrary: k r rule: scanstring.induct)
  case 1
  then show ?case by simp
next
  case (2 c cs)
  show ?case
    using "2.prems" "2.IH"
    by (fastforce simp: push_def split: if_splits list.splits option.splits)
qed

lemma skip_ws_length: "length (skip_ws s) \<le> length s"
  by (simp add: skip_ws_def length_dropWhile_le)

lemma skip_ws_Cons_length: "skip_ws s = x # xs \<Longrightarrow> length xs < length s"
  using skip_ws_length [of s] by simp


lemma match_number_shorter:
  assumes "match_number s = Some (v, r)"
  shows "length r < length s"
proof -
  obtain neg where neg: "neg = (case s of [] \<Rightarrow> False | c # _ \<Rightarrow> c = 45)" by simp
  obtain s1 where s1: "s1 = (if neg then tl s else s)" by simp
  have le: "length s1 \<le> length s" by (simp add: s1)
  from assms obtain d r0 where c: "s1 = d # r0"
    unfolding match_number_def Let_def neg [symmetric] s1 [symmetric]
    by (cases s1) auto
  from assms c have "length r \<le> length r0"
    unfolding match_number_def Let_def neg [symmetric] s1 [symmetric]
    by (cases "d = 48") (auto split: if_splits)
  then have "length r < length s1" using c by simp
  with le show ?thesis by simp
qed

lemma map_option_pair_eq:
  "map_option (\<lambda>(a, y). (f a, y)) m = Some (v, r) \<longleftrightarrow> (\<exists>a. m = Some (a, r) \<and> v = f a)"
  by (cases m) auto

lemma push_eq: "push x m = Some (vs, r) \<longleftrightarrow> (\<exists>xs. m = Some (xs, r) \<and> vs = x # xs)"
  by (cases m) (auto simp: push_def)

lemma map_option_pair_eq':
  "Some (v, r) = map_option (\<lambda>(a, y). (f a, y)) m \<longleftrightarrow> (\<exists>a. m = Some (a, r) \<and> v = f a)"
  by (cases m) auto

lemma push_eq': "Some (vs, r) = push x m \<longleftrightarrow> (\<exists>xs. m = Some (xs, r) \<and> vs = x # xs)"
  by (cases m) (auto simp: push_def)

lemmas opt_eqs = map_option_pair_eq map_option_pair_eq' push_eq push_eq'

lemma scan_shorter_dom:
  "scan_once_parse_array_parse_object_dom (Inl s) \<Longrightarrow>
     (\<forall>v r. scan_once s = Some (v, r) \<longrightarrow> length r < length s)"
  "scan_once_parse_array_parse_object_dom (Inr (Inl s1)) \<Longrightarrow>
     (\<forall>vs r. parse_array s1 = Some (vs, r) \<longrightarrow> length r < length s1)"
  "scan_once_parse_array_parse_object_dom (Inr (Inr s2)) \<Longrightarrow>
     (\<forall>ps r. parse_object s2 = Some (ps, r) \<longrightarrow> length r < length s2)"
proof (induction s and s1 and s2 rule: scan_once_parse_array_parse_object.pinduct)
  case 1
  then show ?case by (simp add: scan_once.psimps)
next
  case (2 c cs)
  show ?case
  proof (intro allI impI)
    fix v r assume eq: "scan_once (c # cs) = Some (v, r)"
    note ps = scan_once.psimps(2) [OF "2.hyps"]
    consider (str) "c = 34" | (obj) "c \<noteq> 34" "c = 123" | (arr) "c \<noteq> 34" "c \<noteq> 123" "c = 91"
      | (other) "c \<noteq> 34" "c \<noteq> 123" "c \<noteq> 91" by blast
    then show "length r < length (c # cs)"
    proof cases
      case str
      with eq ps obtain k where "scanstring cs = Some (k, r)"
        by (auto simp: opt_eqs)
      from scanstring_shorter [OF this] show ?thesis by simp
    next
      case obj
      show ?thesis
      proof (cases "skip_ws cs")
        case Nil
        with eq ps obj show ?thesis by simp
      next
        case (Cons d ds)
        note len = skip_ws_Cons_length [OF Cons]
        show ?thesis
        proof (cases "d = 125")
          case True
          with eq ps obj Cons len show ?thesis by simp
        next
          case False
          with eq ps obj Cons obtain kvs where "parse_object (d # ds) = Some (kvs, r)"
            by (auto simp: opt_eqs)
          with "2.IH"(1) [OF obj Cons False] have "length r < length (d # ds)" by blast
          with len show ?thesis by simp
        qed
      qed
    next
      case arr
      show ?thesis
      proof (cases "skip_ws cs")
        case Nil
        with eq ps arr show ?thesis by simp
      next
        case (Cons d ds)
        note len = skip_ws_Cons_length [OF Cons]
        show ?thesis
        proof (cases "d = 93")
          case True
          with eq ps arr Cons len show ?thesis by simp
        next
          case False
          with eq ps arr Cons obtain vs where "parse_array (d # ds) = Some (vs, r)"
            by (auto simp: opt_eqs)
          with "2.IH"(2) [OF arr Cons False] have "length r < length (d # ds)" by blast
          with len show ?thesis by simp
        qed
      qed
    next
      case other
      from eq ps other have "length r \<le> length cs \<or> match_number (c # cs) = Some (v, r)"
        by (auto split: if_splits)
      then show ?thesis
      proof
        assume "length r \<le> length cs"
        then show ?thesis by simp
      next
        assume "match_number (c # cs) = Some (v, r)"
        from match_number_shorter [OF this] show ?thesis .
      qed
    qed
  qed
next
  case (3 s)
  show ?case
  proof (intro allI impI)
    fix vs r assume eq: "parse_array s = Some (vs, r)"
    note ps = parse_array.psimps [OF "3.hyps"]
    from eq ps obtain v r0 where so: "scan_once s = Some (v, r0)"
      by (cases "scan_once s") auto
    from "3.IH"(1) so have l0: "length r0 < length s" by blast
    show "length r < length s"
    proof (cases "skip_ws r0")
      case Nil
      with eq ps so show ?thesis by simp
    next
      case (Cons t r')
      note len = skip_ws_Cons_length [OF Cons]
      consider (close) "t = 93" | (comma) "t \<noteq> 93" "t = 44" | (bad) "t \<noteq> 93" "t \<noteq> 44" by blast
      then show ?thesis
      proof cases
        case close
        with eq ps so Cons have "r = r'" by simp
        with len l0 show ?thesis by simp
      next
        case comma
        with eq ps so Cons obtain xs where "parse_array (skip_ws r') = Some (xs, r)"
          by (auto simp: opt_eqs)
        with "3.IH"(2) [OF so refl Cons comma] have "length r < length (skip_ws r')" by blast
        with skip_ws_length [of r'] len l0 show ?thesis by simp
      next
        case bad
        with eq ps so Cons show ?thesis by simp
      qed
    qed
  qed
next
  case 4
  then show ?case by (simp add: parse_object.psimps)
next
  case (5 q s)
  show ?case
  proof (intro allI impI)
    fix kvs r assume eq: "parse_object (q # s) = Some (kvs, r)"
    note ps = parse_object.psimps(2) [OF "5.hyps"]
    from eq ps have q: "\<not> q \<noteq> 34" by (auto split: if_splits)
    from eq ps q obtain key r1 where ss: "scanstring s = Some (key, r1)"
      by (cases "scanstring s") auto
    note l1 = scanstring_shorter [OF ss]
    from eq ps q ss obtain col r2 where c1: "skip_ws r1 = col # r2"
      by (cases "skip_ws r1") auto
    note l2 = skip_ws_Cons_length [OF c1]
    from eq ps q ss c1 have col: "\<not> col \<noteq> 58" by (auto split: if_splits)
    from eq ps q ss c1 col obtain v r3 where so: "scan_once (skip_ws r2) = Some (v, r3)"
      by (cases "scan_once (skip_ws r2)") auto
    from "5.IH"(1) [OF q ss refl c1 col] so have l3: "length r3 < length (skip_ws r2)" by blast
    from eq ps q ss c1 col so obtain t r4 where c2: "skip_ws r3 = t # r4"
      by (cases "skip_ws r3") auto
    note l4 = skip_ws_Cons_length [OF c2]
    have chain: "length r4 < length s"
      using l1 l2 l3 l4 skip_ws_length [of r2] by simp
    consider (close) "t = 125" | (comma) "t \<noteq> 125" "t = 44" | (bad) "t \<noteq> 125" "t \<noteq> 44" by blast
    then show "length r < length (q # s)"
    proof cases
      case close
      with eq ps q ss c1 col so c2 have "r = r4" by simp
      with chain show ?thesis by simp
    next
      case comma
      with eq ps q ss c1 col so c2 obtain xs where "parse_object (skip_ws r4) = Some (xs, r)"
        by (auto simp: opt_eqs)
      with "5.IH"(2) [OF q ss refl c1 col so refl c2 comma]
      have "length r < length (skip_ws r4)" by blast
      with skip_ws_length [of r4] chain show ?thesis by simp
    next
      case bad
      with eq ps q ss c1 col so c2 show ?thesis by simp
    qed
  qed
qed

termination scan_once
proof (relation "measure (\<lambda>x. case x of
          Inl s \<Rightarrow> 2 * length s
        | Inr (Inl s) \<Rightarrow> 2 * length s + 1
        | Inr (Inr s) \<Rightarrow> 2 * length s + 1)", goal_cases)
  case 1
  show ?case by simp
next
  case (2 c cs d ds)
  from skip_ws_Cons_length [OF 2(3)] show ?case by simp
next
  case (3 c cs d ds)
  from skip_ws_Cons_length [OF 3(4)] show ?case by simp
next
  case (4 s)
  show ?case by simp
next
  case (5 s x2 v r t r')
  from scan_shorter_dom(1) [OF 5(6)] 5(1,2) have "length r < length s" by auto
  with skip_ws_Cons_length [OF 5(3)] skip_ws_length [of r'] show ?case by simp
next
  case (6 q s x2 key r1 col r2)
  from 6(2,3) have "scanstring s = Some (key, r1)" by simp
  from scanstring_shorter [OF this] skip_ws_Cons_length [OF 6(4)] skip_ws_length [of r2]
  show ?case by simp
next
  case (7 q s x2 key r1 col r2 x2a v r3 t r4)
  from 7(2,3) have "scanstring s = Some (key, r1)" by simp
  note l1 = scanstring_shorter [OF this]
  from scan_shorter_dom(1) [OF 7(11)] 7(6,7) have "length r3 < length (skip_ws r2)" by auto
  with l1 skip_ws_Cons_length [OF 7(4)] skip_ws_length [of r2]
    skip_ws_Cons_length [OF 7(8)] skip_ws_length [of r4]
  show ?case by simp
qed

section \<open>Facts about the text operations\<close>

lemma starts_iff: "starts p s \<longleftrightarrow> (\<exists>post. s = p @ post)"
  unfolding starts_def by (metis append_eq_conv_conj append_take_drop_id)

lemma occurs_Cons:
  "(\<exists>pre post. c # cs = pre @ sub @ post) \<longleftrightarrow>
     starts sub (c # cs) \<or> (\<exists>pre post. cs = pre @ sub @ post)"
proof
  assume "\<exists>pre post. c # cs = pre @ sub @ post"
  then obtain pre post where e: "c # cs = pre @ sub @ post" by blast
  show "starts sub (c # cs) \<or> (\<exists>pre post. cs = pre @ sub @ post)"
  proof (cases pre)
    case Nil
    with e show ?thesis by (auto simp: starts_iff)
  next
    case (Cons a pre')
    with e have "cs = pre' @ sub @ post" by simp
    then show ?thesis by blast
  qed
next
  assume "starts sub (c # cs) \<or> (\<exists>pre post. cs = pre @ sub @ post)"
  then show "\<exists>pre post. c # cs = pre @ sub @ post"
  proof
    assume "starts sub (c # cs)"
    then obtain post where "c # cs = [] @ sub @ post" by (auto simp: starts_iff)
    then show ?thesis by blast
  next
    assume "\<exists>pre post. cs = pre @ sub @ post"
    then obtain pre post where "cs = pre @ sub @ post" by blast
    then have "c # cs = (c # pre) @ sub @ post" by simp
    then show ?thesis by blast
  qed
qed

lemma find_aux_not_found:
  "find_aux sub s k = - 1 \<longleftrightarrow> \<not> (\<exists>pre post. s = pre @ sub @ post)"
proof (induction s arbitrary: k)
  case Nil
  show ?case by auto
next
  case (Cons c cs)
  show ?case
  proof (cases "starts sub (c # cs)")
    case True
    then show ?thesis using occurs_Cons [of c cs sub] by simp
  next
    case False
    then show ?thesis using Cons.IH [of "Suc k"] occurs_Cons [of c cs sub] by simp
  qed
qed

lemma find_aux_found:
  "find_aux sub s k \<noteq> - 1 \<Longrightarrow>
     \<exists>i. find_aux sub s k = int (k + i) \<and> i + length sub \<le> length s
          \<and> starts sub (drop i s) \<and> (\<forall>j<i. \<not> starts sub (drop j s))"
proof (induction s arbitrary: k)
  case Nil
  then show ?case by (auto simp: starts_def split: if_splits)
next
  case (Cons c cs)
  show ?case
  proof (cases "starts sub (c # cs)")
    case True
    then have "length sub \<le> length (c # cs)"
      by (metis starts_iff length_append le_add1)
    with True show ?thesis by (intro exI [of _ 0]) simp
  next
    case False
    with Cons.prems have "find_aux sub cs (Suc k) \<noteq> - 1" by simp
    from Cons.IH [OF this] obtain i where
      i: "find_aux sub cs (Suc k) = int (Suc k + i)" "i + length sub \<le> length cs"
         "starts sub (drop i cs)" "\<forall>j<i. \<not> starts sub (drop j cs)" by blast
    have "\<forall>j<Suc i. \<not> starts sub (drop j (c # cs))"
    proof (intro allI impI)
      fix j assume "j < Suc i"
      then show "\<not> starts sub (drop j (c # cs))"
        using False i(4) by (cases j) auto
    qed
    with False i show ?thesis by (intro exI [of _ "Suc i"]) simp
  qed
qed

lemma contains_iff: "contains sub s \<longleftrightarrow> (\<exists>pre post. s = pre @ sub @ post)"
  by (simp add: contains_def str_find_def find_aux_not_found)

lemma str_find_not_found:
  "k \<le> length s \<Longrightarrow> str_find s sub k = - 1 \<longleftrightarrow> \<not> contains sub (drop k s)"
  by (simp add: contains_iff str_find_def find_aux_not_found)

lemma str_find_first:
  assumes "contains sub s"
  shows "\<exists>i. str_find s sub 0 = int i \<and> i + length sub \<le> length s
           \<and> starts sub (drop i s) \<and> (\<forall>j<i. \<not> starts sub (drop j s))"
proof -
  from assms have "find_aux sub s 0 \<noteq> - 1" by (simp add: contains_def str_find_def)
  from find_aux_found [OF this] show ?thesis by (simp add: str_find_def)
qed

lemma py_slice_to_minus_one:
  assumes "a \<le> length s"
  shows "py_slice s (int a) (- 1) = drop a (butlast s)"
proof -
  have hi: "slice_index (length s) (- 1) = length s - 1"
    by (simp add: slice_index_def)
  have lo: "slice_index (length s) (int a) = a"
    using assms by (simp add: slice_index_def)
  show ?thesis
    by (simp add: py_slice_def Let_def hi lo butlast_conv_take drop_take)
qed

section \<open>The three outcomes of the parser\<close>

lemma parse_response_fallback:
  "json_loads (json_str content) = None \<Longrightarrow>
     parse_response content file_name = Inr (create_fallback_result content file_name)"
  by (simp add: parse_response_def)

lemma parse_response_object:
  "json_loads (json_str content) = Some (JObject d) \<Longrightarrow>
     parse_response content file_name =
       Inr (JObject (dict_set (asc ''file_name'') (JString file_name) d))"
  by (simp add: parse_response_def)

lemma parse_response_not_object:
  "json_loads (json_str content) = Some v \<Longrightarrow> (\<forall>d. v \<noteq> JObject d) \<Longrightarrow>
     \<exists>m. parse_response content file_name = Inl (TypeError m)"
  by (cases v) (simp_all add: parse_response_def)

section \<open>The parser and a reply that is JSON but not an object\<close>

text \<open>
  Claim C1. The parser is to return a record for every reply and never let an exception
  out, also when the text decodes to a JSON value that is not an object. The reply \<open>5\<close>
  has no fence, decodes to the integer 5, and the assignment of \<open>file_name\<close> to it raises
  \<open>TypeError\<close>, which \<open>_parse_response\<close> does not handle: the exception leaves the function.
\<close>

theorem C1_number_reply_raises:
  "parse_response (asc ''5'') (asc ''photo.png'')
     = Inl (TypeError (no_item_assignment (asc ''int'')))"
  by code_simp

section \<open>Evaluation rules\<close>

lemmas text_eval = contains_def str_find_def starts_def asc_def strip_def isspace_def
  py_slice_def slice_index_def fence_def fence_json_def json_str_def

lemmas scan_eval = json_loads_def skip_ws_def is_json_ws_def match_number_def is_digit_def
  frac_part_def exp_part_def digits_val_def dict_of_pairs_def dict_set_def push_def hex4_def
  hex_digit_def unescape_def low_surrogate_after_def

section \<open>The fallback record\<close>

lemma fallback_judgment:
  "py_get (create_fallback_result content file_name) (asc ''judgment'') =
     Some (JString
       (if contains label_no_problem content then label_no_problem
        else if contains label_has_problem content \<or> contains marker_prohibited content
                \<or> contains marker_failed content
        then label_has_problem
        else label_needs_review))"
  by (simp add: create_fallback_result_def Let_def dict_get_def asc_def)

lemma labels_distinct:
  "label_no_problem \<noteq> label_error" "label_has_problem \<noteq> label_error"
  "label_needs_review \<noteq> label_error" "label_no_problem \<noteq> label_has_problem"
  "label_no_problem \<noteq> label_needs_review" "label_has_problem \<noteq> label_needs_review"
  by (simp_all add: label_no_problem_def label_has_problem_def label_needs_review_def
      label_error_def)

text \<open>
  Claim C3. On the fallback path (the text handed to the decoder does not decode) the
  judgment comes from a substring search over the whole reply, in this order: the
  "no problem" phrase gives the "no problem" label; else the "has problem", "prohibited"
  or "failed" phrase gives the "has problem" label; else the label is "needs review". It
  is never the "error" label, and a reply with both the "no problem" and the "has problem"
  phrase gets "no problem". (\<open>contains\<close> is substring occurrence: lemma \<open>contains_iff\<close>.)
\<close>

theorem C3_fallback_judgment:
  assumes "json_loads (json_str content) = None"
  shows "parse_response content file_name = Inr (create_fallback_result content file_name)
    \<and> (contains label_no_problem content \<longrightarrow>
         py_get (create_fallback_result content file_name) (asc ''judgment'')
           = Some (JString label_no_problem))
    \<and> (\<not> contains label_no_problem content
         \<and> (contains label_has_problem content \<or> contains marker_prohibited content
              \<or> contains marker_failed content) \<longrightarrow>
         py_get (create_fallback_result content file_name) (asc ''judgment'')
           = Some (JString label_has_problem))
    \<and> (\<not> contains label_no_problem content \<and> \<not> contains label_has_problem content
         \<and> \<not> contains marker_prohibited content \<and> \<not> contains marker_failed content \<longrightarrow>
         py_get (create_fallback_result content file_name) (asc ''judgment'')
           = Some (JString label_needs_review))
    \<and> py_get (create_fallback_result content file_name) (asc ''judgment'')
         \<noteq> Some (JString label_error)"
  using assms
  by (simp add: parse_response_fallback fallback_judgment labels_distinct)



theorem C3_fallback_judgment_witness:
  "json_loads (json_str reply_both_markers) = None
   \<and> contains label_no_problem reply_both_markers
   \<and> contains label_has_problem reply_both_markers
   \<and> parse_response reply_both_markers (asc ''photo.png'')
        = Inr (create_fallback_result reply_both_markers (asc ''photo.png''))
   \<and> py_get (create_fallback_result reply_both_markers (asc ''photo.png'')) (asc ''judgment'')
        = Some (JString label_no_problem)"
proof -
  have h: "json_loads (json_str reply_both_markers) = None"
    by (simp add: text_eval scan_eval reply_both_markers_def label_no_problem_def
        label_has_problem_def)
  have c: "contains label_no_problem reply_both_markers"
    by (simp add: text_eval reply_both_markers_def label_no_problem_def label_has_problem_def)
  have d: "contains label_has_problem reply_both_markers"
    by (simp add: text_eval reply_both_markers_def label_no_problem_def label_has_problem_def)
  from C3_fallback_judgment [OF h, of "asc ''photo.png''"] h c d show ?thesis by simp
qed

text \<open>
  Claim C4. On the fallback path the record has exactly one issue, of severity \<open>info\<close> and
  category "parse error"; \<open>notes\<close> and \<open>raw_response\<close> both hold the whole reply; the company
  name is "unknown"; and \<open>detected_elements\<close> has its four text fields \<open>None\<close> and
  \<open>trademark_symbol\<close> false.
\<close>

theorem C4_fallback_record:
  assumes "json_loads (json_str content) = None"
  shows "parse_response content file_name = Inr (create_fallback_result content file_name)
    \<and> py_get (create_fallback_result content file_name) (asc ''issues'')
        = Some (JArray
            [JObject
               [(asc ''severity'', JString (asc ''info'')),
                (asc ''category'', JString category_parse_error),
                (asc ''description'', JString fallback_description)]])
    \<and> py_get (create_fallback_result content file_name) (asc ''notes'')
        = Some (JString content)
    \<and> py_get (create_fallback_result content file_name) (asc ''raw_response'')
        = Some (JString content)
    \<and> py_get (create_fallback_result content file_name) (asc ''company_name'')
        = Some (JString label_unknown)
    \<and> py_get (create_fallback_result content file_name) (asc ''detected_elements'')
        = Some (JObject
            [(asc ''year'', JNull),
             (asc ''issuer'', JNull),
             (asc ''ranking_name'', JNull),
             (asc ''position'', JNull),
             (asc ''trademark_symbol'', JBool False)])"
  using assms
  by (simp add: parse_response_fallback create_fallback_result_def Let_def dict_get_def asc_def)

theorem C4_fallback_record_witness:
  "json_loads (json_str reply_both_markers) = None
   \<and> py_get (create_fallback_result reply_both_markers (asc ''photo.png'')) (asc ''raw_response'')
        = Some (JString reply_both_markers)
   \<and> py_get (create_fallback_result reply_both_markers (asc ''photo.png'')) (asc ''notes'')
        = Some (JString reply_both_markers)"
proof -
  have h: "json_loads (json_str reply_both_markers) = None"
    by (simp add: text_eval scan_eval reply_both_markers_def label_no_problem_def
        label_has_problem_def)
  from C4_fallback_record [OF h, of "asc ''photo.png''"] h show ?thesis by simp
qed

section \<open>The structured path\<close>

lemmas example_defs = reply_both_markers_def reply_no_trademark_def reply_with_raw_def
  reply_odd_judgment_def label_no_problem_def label_has_problem_def

lemma loads_no_trademark:
  "json_loads (json_str reply_no_trademark) =
     Some (JObject
       [(asc ''file_name'', JString (asc ''x.png'')),
        (asc ''company_name'', JString (asc ''ACME'')),
        (asc ''judgment'', JString label_no_problem),
        (asc ''issues'', JArray []),
        (asc ''detected_elements'',
           JObject
             [(asc ''year'', JString (asc ''2024'')),
              (asc ''issuer'', JNull),
              (asc ''ranking_name'', JNull),
              (asc ''position'', JNull)]),
        (asc ''notes'', JString [])])"
  by (simp add: text_eval scan_eval example_defs)

lemma loads_with_raw:
  "json_loads (json_str reply_with_raw) =
     Some (JObject
       [(asc ''judgment'', JString label_no_problem),
        (asc ''raw_response'', JString (asc ''x''))])"
  by (simp add: text_eval scan_eval example_defs)

lemma loads_odd_judgment:
  "json_loads (json_str reply_odd_judgment) =
     Some (JObject [(asc ''judgment'', JString (asc ''OK''))])"
  by (simp add: text_eval scan_eval example_defs)

lemma loads_number: "json_loads (json_str (asc ''5'')) = Some (JInt 5)"
  by (simp add: text_eval scan_eval)

lemma dict_get_set_same: "dict_get (dict_set k v d) k = Some v"
  by (simp add: dict_get_def dict_set_def update_conv')

lemma dict_get_set_other: "k' \<noteq> k \<Longrightarrow> dict_get (dict_set k v d) k' = dict_get d k'"
  by (simp add: dict_get_def dict_set_def update_conv')

lemma dict_set_keys:
  "map fst (dict_set k v d) = (if k \<in> set (map fst d) then map fst d else map fst d @ [k])"
  by (simp add: dict_set_def update_keys)

lemma handle_reply_raised [simp]: "handle_reply dn (Inl e) = error_result dn e"
  by (simp add: handle_reply_def)

lemma handle_reply_fallback:
  "json_loads (json_str content) = None \<Longrightarrow>
     handle_reply dn (Inr content) = create_fallback_result content dn"
  by (simp add: handle_reply_def parse_response_fallback)

lemma handle_reply_object:
  "json_loads (json_str content) = Some (JObject d) \<Longrightarrow>
     handle_reply dn (Inr content) = JObject (dict_set (asc ''file_name'') (JString dn) d)"
  by (simp add: handle_reply_def parse_response_object)

lemma handle_reply_not_object:
  assumes "json_loads (json_str content) = Some v" and "\<forall>d. v \<noteq> JObject d"
  shows "\<exists>m. handle_reply dn (Inr content) = error_result dn (TypeError m)"
proof -
  from parse_response_not_object [OF assms] obtain m
    where "parse_response content dn = Inl (TypeError m)" by blast
  then show ?thesis by (auto simp: handle_reply_def)
qed

lemma handle_reply_is_dict: "\<exists>d. handle_reply dn reply = JObject d"
proof (cases reply)
  case (Inl e)
  then show ?thesis by (simp add: error_result_def)
next
  case (Inr content)
  show ?thesis
  proof (cases "json_loads (json_str content)")
    case None
    with Inr show ?thesis by (simp add: handle_reply_fallback create_fallback_result_def Let_def)
  next
    case (Some v)
    show ?thesis
    proof (cases "\<exists>d. v = JObject d")
      case True
      with Some Inr show ?thesis by (auto simp: handle_reply_object)
    next
      case False
      with handle_reply_not_object [OF Some, of dn] Inr show ?thesis
        by (auto simp: error_result_def)
    qed
  qed
qed

lemma error_result_fields:
  "py_get (error_result dn e) (asc ''file_name'') = Some (JString dn)"
  "py_get (error_result dn e) (asc ''company_name'') = Some (JString label_unknown)"
  "py_get (error_result dn e) (asc ''judgment'') = Some (JString label_error)"
  "py_get (error_result dn e) (asc ''issues'') =
     Some (JArray
       [JObject
          [(asc ''severity'', JString (asc ''critical'')),
           (asc ''category'', JString category_system_error),
           (asc ''description'', JString (api_error_prefix @ exn_str e))]])"
  "py_get (error_result dn e) (asc ''detected_elements'') =
     Some (JObject
       [(asc ''year'', JNull),
        (asc ''issuer'', JNull),
        (asc ''ranking_name'', JNull),
        (asc ''position'', JNull),
        (asc ''trademark_symbol'', JBool False)])"
  "py_get (error_result dn e) (asc ''notes'') = Some (JString api_error_notes)"
  "py_get (error_result dn e) (asc ''raw_response'') = None"
  by (simp_all add: error_result_def dict_get_def asc_def)

lemma key_neq_file_name:
  "asc ''raw_response'' \<noteq> asc ''file_name''" "asc ''judgment'' \<noteq> asc ''file_name''"
  by (simp_all add: asc_def)

text \<open>
  Claim C2. For a reply whose candidate decodes to an object, the parser is to return that
  object with \<open>file_name\<close> overwritten, every other field unchanged, and every absent
  optional sub-field filled with its default (\<open>trademark_symbol\<close> false). The code
  overwrites \<open>file_name\<close> and returns the object as it is: no default is filled in. In
  the record below \<open>detected_elements\<close> has no \<open>trademark_symbol\<close>, and the result has
  none either.
\<close>

theorem C2_defaults_not_filled:
  "parse_response reply_no_trademark (asc ''photo.png'') =
     Inr (JObject
       [(asc ''file_name'', JString (asc ''photo.png'')),
        (asc ''company_name'', JString (asc ''ACME'')),
        (asc ''judgment'', JString label_no_problem),
        (asc ''issues'', JArray []),
        (asc ''detected_elements'',
           JObject
             [(asc ''year'', JString (asc ''2024'')),
              (asc ''issuer'', JNull),
              (asc ''ranking_name'', JNull),
              (asc ''position'', JNull)]),
        (asc ''notes'', JString [])])
   \<and> py_get
         (JObject
           [(asc ''year'', JString (asc ''2024'')),
            (asc ''issuer'', JNull),
            (asc ''ranking_name'', JNull),
            (asc ''position'', JNull)])
         (asc ''trademark_symbol'') \<noteq> Some (JBool False)"
  by (simp add: parse_response_object [OF loads_no_trademark] dict_set_def dict_get_def asc_def)

text \<open>
  Claim C2 as amended: the parser returns the decoded object with \<open>file_name\<close> set to the
  display name (in place when the key is there, as a new last key otherwise); every other
  key keeps its decoded value, and no key is added: absent fields stay absent.
\<close>

theorem C2_structured_result:
  assumes "json_loads (json_str content) = Some (JObject d)"
  shows "parse_response content file_name
           = Inr (JObject (dict_set (asc ''file_name'') (JString file_name) d))
    \<and> dict_get (dict_set (asc ''file_name'') (JString file_name) d) (asc ''file_name'')
        = Some (JString file_name)
    \<and> (\<forall>k. k \<noteq> asc ''file_name'' \<longrightarrow>
          dict_get (dict_set (asc ''file_name'') (JString file_name) d) k = dict_get d k)
    \<and> map fst (dict_set (asc ''file_name'') (JString file_name) d)
        = (if asc ''file_name'' \<in> set (map fst d) then map fst d
           else map fst d @ [asc ''file_name''])"
  using assms
  by (simp add: parse_response_object dict_get_set_same dict_get_set_other dict_set_keys)

theorem C2_structured_result_witness:
  "json_loads (json_str reply_odd_judgment) = Some (JObject [(asc ''judgment'', JString (asc ''OK''))])
   \<and> parse_response reply_odd_judgment (asc ''photo.png'')
       = Inr (JObject
           [(asc ''judgment'', JString (asc ''OK'')),
            (asc ''file_name'', JString (asc ''photo.png''))])"
  using C2_structured_result [OF loads_odd_judgment, of "asc ''photo.png''"] loads_odd_judgment
  by (simp add: dict_set_def asc_def)

text \<open>
  Claim C5. \<open>raw_response\<close> is to be present if and only if the parser took the fallback
  path. The reply below decodes to an object, so the parser does not take the fallback
  path; the object has a \<open>raw_response\<close> key of its own, and the record keeps it.
\<close>

theorem C5_raw_response_on_structured_path:
  "json_loads (json_str reply_with_raw) \<noteq> None
   \<and> py_get (handle_reply (asc ''photo.png'') (Inr reply_with_raw)) (asc ''raw_response'')
       = Some (JString (asc ''x''))"
  by (simp add: handle_reply_object [OF loads_with_raw] loads_with_raw dict_set_def
      dict_get_def asc_def)

text \<open>
  Claim C5 as amended: a record of the fallback path always has \<open>raw_response\<close> (the whole
  reply); a record of the error handler never has it; a record of the structured path has
  it exactly when the decoded object has the key, with the same value.
\<close>

theorem C5_raw_response_presence:
  "py_get (handle_reply dn (Inl e)) (asc ''raw_response'') = None
   \<and> (json_loads (json_str content) = None \<longrightarrow>
        py_get (handle_reply dn (Inr content)) (asc ''raw_response'') = Some (JString content))
   \<and> (json_loads (json_str content) = Some (JObject d) \<longrightarrow>
        py_get (handle_reply dn (Inr content)) (asc ''raw_response'')
          = dict_get d (asc ''raw_response''))
   \<and> (json_loads (json_str content) = Some v \<and> (\<forall>d'. v \<noteq> JObject d') \<longrightarrow>
        py_get (handle_reply dn (Inr content)) (asc ''raw_response'') = None)"
proof (intro conjI impI)
  show "py_get (handle_reply dn (Inl e)) (asc ''raw_response'') = None"
    by (simp add: error_result_fields)
next
  assume "json_loads (json_str content) = None"
  then show "py_get (handle_reply dn (Inr content)) (asc ''raw_response'') = Some (JString content)"
    by (simp add: handle_reply_fallback create_fallback_result_def Let_def dict_get_def asc_def)
next
  assume "json_loads (json_str content) = Some (JObject d)"
  then show "py_get (handle_reply dn (Inr content)) (asc ''raw_response'')
          = dict_get d (asc ''raw_response'')"
    by (simp add: handle_reply_object dict_get_set_other key_neq_file_name)
next
  assume "json_loads (json_str content) = Some v \<and> (\<forall>d'. v \<noteq> JObject d')"
  then have a: "json_loads (json_str content) = Some v" and b: "\<forall>d'. v \<noteq> JObject d'" by auto
  from handle_reply_not_object [OF a b, of dn]
  show "py_get (handle_reply dn (Inr content)) (asc ''raw_response'') = None"
    by (auto simp: error_result_fields)
qed

theorem C5_raw_response_presence_witness:
  "json_loads (json_str reply_both_markers) = None
   \<and> py_get (handle_reply (asc ''photo.png'') (Inr reply_both_markers)) (asc ''raw_response'')
       = Some (JString reply_both_markers)
   \<and> json_loads (json_str reply_odd_judgment)
       = Some (JObject [(asc ''judgment'', JString (asc ''OK''))])
   \<and> py_get (handle_reply (asc ''photo.png'') (Inr reply_odd_judgment)) (asc ''raw_response'')
       = None
   \<and> json_loads (json_str (asc ''5'')) = Some (JInt 5)
   \<and> py_get (handle_reply (asc ''photo.png'') (Inr (asc ''5''))) (asc ''raw_response'') = None"
proof -
  have h: "json_loads (json_str reply_both_markers) = None"
    by (simp add: text_eval scan_eval example_defs)
  have n: "\<forall>d'. JInt 5 \<noteq> JObject d'" by simp
  from C5_raw_response_presence
         [of "asc ''photo.png''" "Raised []" reply_both_markers "[]" JNull]
       C5_raw_response_presence
         [of "asc ''photo.png''" "Raised []" reply_odd_judgment
            "[(asc ''judgment'', JString (asc ''OK''))]" JNull]
       C5_raw_response_presence
         [of "asc ''photo.png''" "Raised []" "asc ''5''" "[]" "JInt 5"]
       h loads_odd_judgment loads_number n
  show ?thesis by (simp add: dict_get_def asc_def)
qed

lemma odd_label_not_a_label:
  "asc ''OK'' \<noteq> label_no_problem" "asc ''OK'' \<noteq> label_has_problem"
  "asc ''OK'' \<noteq> label_needs_review" "asc ''OK'' \<noteq> label_error"
  by (simp_all add: asc_def label_no_problem_def label_has_problem_def label_needs_review_def
      label_error_def)

text \<open>
  Claim C6. Every record is to carry one of the four judgment labels, a label of the
  decoded payload that is not one of them collapsing to "needs review". The reply below
  decodes to an object whose judgment is \<open>OK\<close>; the record keeps \<open>OK\<close>, which is none of the
  four labels.
\<close>

theorem C6_unknown_label_kept:
  "py_get (handle_reply (asc ''photo.png'') (Inr reply_odd_judgment)) (asc ''judgment'')
     = Some (JString (asc ''OK''))
   \<and> asc ''OK'' \<noteq> label_no_problem \<and> asc ''OK'' \<noteq> label_has_problem
   \<and> asc ''OK'' \<noteq> label_needs_review \<and> asc ''OK'' \<noteq> label_error"
proof -
  have "py_get (handle_reply (asc ''photo.png'') (Inr reply_odd_judgment)) (asc ''judgment'')
          = Some (JString (asc ''OK''))"
    by (simp add: handle_reply_object [OF loads_odd_judgment] dict_set_def dict_get_def asc_def)
  then show ?thesis by (intro conjI odd_label_not_a_label)
qed

text \<open>
  Claim C6 as amended: a record of the error handler has the "error" label; a record of
  the fallback path has "no problem", "has problem" or "needs review"; a record of the
  structured path has whatever judgment the decoded object holds, unchanged (none when the
  object has no such key).
\<close>

theorem C6_judgment_of_record:
  "py_get (handle_reply dn (Inl e)) (asc ''judgment'') = Some (JString label_error)
   \<and> (json_loads (json_str content) = None \<longrightarrow>
        py_get (handle_reply dn (Inr content)) (asc ''judgment'')
          \<in> {Some (JString label_no_problem), Some (JString label_has_problem),
              Some (JString label_needs_review)})
   \<and> (json_loads (json_str content) = Some (JObject d) \<longrightarrow>
        py_get (handle_reply dn (Inr content)) (asc ''judgment'') = dict_get d (asc ''judgment''))
   \<and> (json_loads (json_str content) = Some v \<and> (\<forall>d'. v \<noteq> JObject d') \<longrightarrow>
        py_get (handle_reply dn (Inr content)) (asc ''judgment'') = Some (JString label_error))"
proof (intro conjI impI)
  show "py_get (handle_reply dn (Inl e)) (asc ''judgment'') = Some (JString label_error)"
    by (simp add: error_result_fields)
next
  assume "json_loads (json_str content) = None"
  then show "py_get (handle_reply dn (Inr content)) (asc ''judgment'')
          \<in> {Some (JString label_no_problem), Some (JString label_has_problem),
              Some (JString label_needs_review)}"
    by (simp add: handle_reply_fallback fallback_judgment)
next
  assume "json_loads (json_str content) = Some (JObject d)"
  then show "py_get (handle_reply dn (Inr content)) (asc ''judgment'') = dict_get d (asc ''judgment'')"
    by (simp add: handle_reply_object dict_get_set_other key_neq_file_name)
next
  assume "json_loads (json_str content) = Some v \<and> (\<forall>d'. v \<noteq> JObject d')"
  then have a: "json_loads (json_str content) = Some v" and b: "\<forall>d'. v \<noteq> JObject d'" by auto
  from handle_reply_not_object [OF a b, of dn]
  show "py_get (handle_reply dn (Inr content)) (asc ''judgment'') = Some (JString label_error)"
    by (auto simp: error_result_fields)
qed

theorem C6_judgment_of_record_witness:
  "json_loads (json_str reply_both_markers) = None
   \<and> py_get (handle_reply (asc ''photo.png'') (Inr reply_both_markers)) (asc ''judgment'')
       \<in> {Some (JString label_no_problem), Some (JString label_has_problem),
           Some (JString label_needs_review)}
   \<and> json_loads (json_str reply_with_raw)
       = Some (JObject
           [(asc ''judgment'', JString label_no_problem),
            (asc ''raw_response'', JString (asc ''x''))])
   \<and> py_get (handle_reply (asc ''photo.png'') (Inr reply_with_raw)) (asc ''judgment'')
       = Some (JString label_no_problem)
   \<and> json_loads (json_str (asc ''5'')) = Some (JInt 5)
   \<and> py_get (handle_reply (asc ''photo.png'') (Inr (asc ''5''))) (asc ''judgment'')
       = Some (JString label_error)"
proof -
  have h: "json_loads (json_str reply_both_markers) = None"
    by (simp add: text_eval scan_eval example_defs)
  have n: "\<forall>d'. JInt 5 \<noteq> JObject d'" by simp
  from C6_judgment_of_record
         [of "asc ''photo.png''" "Raised []" reply_both_markers "[]" JNull]
       C6_judgment_of_record
         [of "asc ''photo.png''" "Raised []" reply_with_raw
            "[(asc ''judgment'', JString label_no_problem),
              (asc ''raw_response'', JString (asc ''x''))]" JNull]
       C6_judgment_of_record
         [of "asc ''photo.png''" "Raised []" "asc ''5''" "[]" "JInt 5"]
       h loads_with_raw loads_number n
  show ?thesis by (simp add: dict_get_def asc_def)
qed

section \<open>A fence that is not closed\<close>

lemma json_str_unclosed:
  assumes c: "contains opener content"
    and n: "\<not> contains fence (drop (nat (str_find content opener 0) + length opener) content)"
  shows "strip (py_slice content (str_find content opener 0 + int (length opener))
                  (str_find content fence (nat (str_find content opener 0 + int (length opener)))))
         = strip (drop (nat (str_find content opener 0) + length opener) (butlast content))"
proof -
  from str_find_first [OF c] obtain i where
    i: "str_find content opener 0 = int i" "i + length opener \<le> length content" by blast
  have st: "nat (int i + int (length opener)) = i + length opener"
    by (simp add: nat_int_add)
  have e: "str_find content fence (i + length opener) = - 1"
    using n i by (simp add: str_find_not_found)
  have "py_slice content (int (i + length opener)) (- 1)
          = drop (i + length opener) (butlast content)"
    by (rule py_slice_to_minus_one [OF i(2)])
  then show ?thesis by (simp add: i(1) st e)
qed

lemma fence_lengths: "length fence_json = 7" "length fence = 3"
  by (simp_all add: fence_json_def fence_def asc_def)

text \<open>
  Claim C10. When the reply has the opener \<open>```json\<close> (or, without it, a plain \<open>```\<close>) and no
  closing fence after the opener, the text handed to the decoder is the reply from just
  past the opener up to, but without, its last character, stripped. (The opener is the
  first occurrence: lemma \<open>str_find_first\<close>.)
\<close>

theorem C10_unclosed_fence_candidate:
  "(contains fence_json content
      \<and> \<not> contains fence (drop (nat (str_find content fence_json 0) + 7) content) \<longrightarrow>
    json_str content
      = strip (drop (nat (str_find content fence_json 0) + 7) (butlast content)))
   \<and> (\<not> contains fence_json content \<and> contains fence content
      \<and> \<not> contains fence (drop (nat (str_find content fence 0) + 3) content) \<longrightarrow>
    json_str content
      = strip (drop (nat (str_find content fence 0) + 3) (butlast content)))"
proof (intro conjI impI)
  assume a: "contains fence_json content
      \<and> \<not> contains fence (drop (nat (str_find content fence_json 0) + 7) content)"
  from a json_str_unclosed [of fence_json content]
  show "json_str content
      = strip (drop (nat (str_find content fence_json 0) + 7) (butlast content))"
    by (simp add: json_str_def Let_def fence_lengths)
next
  assume a: "\<not> contains fence_json content \<and> contains fence content
      \<and> \<not> contains fence (drop (nat (str_find content fence 0) + 3) content)"
  from a json_str_unclosed [of fence content]
  show "json_str content
      = strip (drop (nat (str_find content fence 0) + 3) (butlast content))"
    by (simp add: json_str_def Let_def fence_lengths)
qed

theorem C10_unclosed_fence_candidate_witness:
  "contains fence_json reply_unclosed_fence
   \<and> \<not> contains fence (drop (nat (str_find reply_unclosed_fence fence_json 0) + 7)
                           reply_unclosed_fence)
   \<and> json_str reply_unclosed_fence = asc ''{\"judgment\": \"OK\"''
   \<and> \<not> contains fence_json reply_unclosed_plain \<and> contains fence reply_unclosed_plain
   \<and> \<not> contains fence (drop (nat (str_find reply_unclosed_plain fence 0) + 3)
                           reply_unclosed_plain)
   \<and> json_str reply_unclosed_plain = asc ''{\"judgment\": \"OK\"}''"
proof -
  have a: "contains fence_json reply_unclosed_fence"
    by (simp add: text_eval reply_unclosed_fence_def)
  have p: "str_find reply_unclosed_fence fence_json 0 = 0"
    by (simp add: text_eval reply_unclosed_fence_def)
  have b: "\<not> contains fence (drop (nat (str_find reply_unclosed_fence fence_json 0) + 7)
                           reply_unclosed_fence)"
    unfolding p by (simp add: text_eval reply_unclosed_fence_def)
  have c: "\<not> contains fence_json reply_unclosed_plain"
    by (simp add: text_eval reply_unclosed_plain_def)
  have d: "contains fence reply_unclosed_plain"
    by (simp add: text_eval reply_unclosed_plain_def)
  have q: "str_find reply_unclosed_plain fence 0 = 4"
    by (simp add: text_eval reply_unclosed_plain_def)
  have e: "\<not> contains fence (drop (nat (str_find reply_unclosed_plain fence 0) + 3)
                           reply_unclosed_plain)"
    unfolding q by (simp add: text_eval reply_unclosed_plain_def)
  have r1: "strip (drop (nat (str_find reply_unclosed_fence fence_json 0) + 7)
                    (butlast reply_unclosed_fence)) = asc ''{\"judgment\": \"OK\"''"
    unfolding p by (simp add: text_eval reply_unclosed_fence_def)
  have r2: "strip (drop (nat (str_find reply_unclosed_plain fence 0) + 3)
                    (butlast reply_unclosed_plain)) = asc ''{\"judgment\": \"OK\"}''"
    unfolding q by (simp add: text_eval reply_unclosed_plain_def)
  from C10_unclosed_fence_candidate [of reply_unclosed_fence]
       C10_unclosed_fence_candidate [of reply_unclosed_plain] a b c d e r1 r2
  show ?thesis by simp
qed

section \<open>The loop over the payloads\<close>

lemma remote_trace_length:
  "remote_trace create prompt file_name n st i images = (replies, st') \<Longrightarrow>
     length replies = length images"
proof (induction images arbitrary: st i replies st')
  case Nil
  then show ?case by simp
next
  case (Cons p rest)
  obtain b m where p: "p = (b, m)" by (cases p)
  obtain reply st1 where c:
    "create st (build_request prompt
        (display_name_of file_name (if 1 < n then Some (int i) else None)) m b) = (reply, st1)"
    by fastforce
  obtain replies' st2 where t:
    "remote_trace create prompt file_name n st1 (Suc i) rest = (replies', st2)"
    by fastforce
  from Cons.prems have "replies = reply # replies'"
    unfolding p remote_trace.simps Let_def c by (simp add: t)
  with Cons.IH [OF t] show ?case by simp
qed

lemma check_images_from_trace:
  "remote_trace create prompt file_name n st i images = (replies, st') \<Longrightarrow>
   check_images_from create prompt file_name n st i images =
     (map (\<lambda>(k, reply).
             handle_reply (display_name_of file_name (if 1 < n then Some (int k) else None)) reply)
        (zip [i..<i + length images] replies), st')"
proof (induction images arbitrary: st i replies st')
  case Nil
  then show ?case by simp
next
  case (Cons p rest)
  obtain b m where p: "p = (b, m)" by (cases p)
  obtain reply st1 where c:
    "create st (build_request prompt
        (display_name_of file_name (if 1 < n then Some (int i) else None)) m b) = (reply, st1)"
    by fastforce
  obtain replies' st2 where t:
    "remote_trace create prompt file_name n st1 (Suc i) rest = (replies', st2)"
    by fastforce
  from Cons.prems have r: "replies = reply # replies'" and s: "st' = st2"
    unfolding p remote_trace.simps Let_def c by (simp_all add: t)
  have u: "[i..<Suc (i + length rest)] = i # [Suc i..<Suc (i + length rest)]"
    by (simp add: upt_conv_Cons del: upt_Suc)
  have ci: "check_image create prompt st b m file_name (if 1 < n then Some (int i) else None)
      = (handle_reply (display_name_of file_name (if 1 < n then Some (int i) else None)) reply, st1)"
    unfolding check_image_def Let_def c by simp
  show ?case
    unfolding p check_images_from.simps ci Let_def
    by (simp add: Cons.IH [OF t] r s u del: upt_Suc)
qed

lemma check_multiple_images_nth:
  assumes "i < length images"
  shows "fst (check_multiple_images create prompt st images file_name) ! i =
     handle_reply (display_name_of file_name (if 1 < length images then Some (int i) else None))
       (fst (remote_trace create prompt file_name (length images) st 0 images) ! i)"
proof -
  obtain replies st' where
    t: "remote_trace create prompt file_name (length images) st 0 images = (replies, st')"
    by fastforce
  from remote_trace_length [OF t] have l: "length replies = length images" .
  from assms l show ?thesis
    by (simp add: check_multiple_images_def check_images_from_trace [OF t] t)
qed

lemma handle_reply_file_name:
  "py_get (handle_reply dn reply) (asc ''file_name'') = Some (JString dn)"
proof (cases reply)
  case (Inl e)
  then show ?thesis by (simp add: error_result_fields)
next
  case (Inr content)
  show ?thesis
  proof (cases "json_loads (json_str content)")
    case None
    with Inr show ?thesis
      by (simp add: handle_reply_fallback create_fallback_result_def Let_def dict_get_def)
  next
    case (Some v)
    show ?thesis
    proof (cases "\<exists>d. v = JObject d")
      case True
      with Some Inr show ?thesis by (auto simp: handle_reply_object dict_get_set_same)
    next
      case False
      with handle_reply_not_object [OF Some, of dn] Inr show ?thesis
        by (auto simp: error_result_fields)
    qed
  qed
qed

end
